theory Spec2Isabelle
  imports Main "HOL-Library.Word"
begin

section \<open>The Accounts registry (packages/protocol/contracts/common/Accounts.sol)\<close>

text \<open>
  The contract keeps two mappings: \<open>accounts\<close>, from an address to its \<open>Account\<close> struct,
  and \<open>authorizedBy\<close>, from a signing key to the account that authorized it. A Solidity
  mapping is total (an absent key reads as the zero value), so both are total functions
  here. \<open>address\<close> is a 160-bit word and \<open>address(0)\<close> is the word \<open>0\<close>, which the contract
  uses as "no address". A \<open>require\<close> that fails reverts the transaction: the entry point
  returns \<open>Inl\<close> of an error and no new storage. The events the contract emits are a log
  beside the storage and are not modelled.
\<close>

type_synonym address = "160 word"
type_synonym bytes = "8 word list"
type_synonym uint8 = "8 word"
type_synonym bytes32 = "256 word"

record Signers =
  voting :: address
  validating :: address
  attesting :: address

record Account =
  exists :: bool
  signers :: Signers
  walletAddress :: address
  dataEncryptionKey :: bytes
  metadataURL :: string

text \<open>
  Modelled from the spec: the \<open>ReentrancyGuard\<close> base contract (an OpenZeppelin import) is
  not part of the sources. Following section 9 of the specification it is a token,
  \<open>guardHeld\<close>, taken at the start of a guarded entry point, given back when the entry
  point returns, and refusing a second guarded entry while it is held.
\<close>

record storage =
  accounts :: "address \<Rightarrow> Account"
  authorizedBy :: "address \<Rightarrow> address"
  guardHeld :: bool

text \<open>
  The contract has one unlabelled \<open>require\<close> per check. The error names the conjunct that
  made the \<open>require\<close> false, the conjuncts being evaluated from left to right.
\<close>

datatype error =
    AlreadyIdentity
  | AlreadyDelegate
  | UnknownIdentity
  | CandidateIsIdentity
  | CandidateAlreadyClaimed
  | InvalidSignature
  | StaleAuthorization
  | DataEncryptionKeyTooShort
  | ReentrantCall

text \<open>
  \<open>Signatures.getSignerOfAddress(msg.sender, v, r, s)\<close> lives in a library that is not part
  of the sources; every function that needs it takes it as its first argument.
\<close>

type_synonym recover = "address \<Rightarrow> uint8 \<Rightarrow> bytes32 \<Rightarrow> bytes32 \<Rightarrow> address"

definition emptySigners :: Signers where
  "emptySigners = \<lparr>voting = 0, validating = 0, attesting = 0\<rparr>"

definition emptyAccount :: Account where
  "emptyAccount = \<lparr>exists = False, signers = emptySigners, walletAddress = 0,
     dataEncryptionKey = [], metadataURL = []\<rparr>"

definition initial :: storage where
  "initial = \<lparr>accounts = (\<lambda>_. emptyAccount), authorizedBy = (\<lambda>_. 0), guardHeld = False\<rparr>"

subsection \<open>Predicates\<close>

definition isAccount :: "storage \<Rightarrow> address \<Rightarrow> bool" where
  "isAccount st account = exists (accounts st account)"

definition isNotAccount :: "storage \<Rightarrow> address \<Rightarrow> bool" where
  "isNotAccount st account = (\<not> exists (accounts st account))"

definition isAuthorized :: "storage \<Rightarrow> address \<Rightarrow> bool" where
  "isAuthorized st account = (authorizedBy st account \<noteq> 0)"

definition isNotAuthorized :: "storage \<Rightarrow> address \<Rightarrow> bool" where
  "isNotAuthorized st account = (authorizedBy st account = 0)"

subsection \<open>Account creation and the profile setters\<close>

text \<open>
  \<open>msg.sender\<close> is the first argument of every entry point. \<open>createAccount\<close> returns
  \<open>true\<close> whenever it returns; here that is \<open>Inr\<close> of the new storage.
\<close>

definition createAccount :: "address \<Rightarrow> storage \<Rightarrow> error + storage" where
  "createAccount msg_sender st =
     (if \<not> isNotAccount st msg_sender then Inl AlreadyIdentity
      else if \<not> isNotAuthorized st msg_sender then Inl AlreadyDelegate
      else Inr (st\<lparr>accounts := (accounts st)
                  (msg_sender := (accounts st msg_sender)\<lparr>exists := True\<rparr>)\<rparr>))"

definition setMetadataURL :: "address \<Rightarrow> string \<Rightarrow> storage \<Rightarrow> error + storage" where
  "setMetadataURL msg_sender url st =
     Inr (st\<lparr>accounts := (accounts st)
            (msg_sender := (accounts st msg_sender)\<lparr>metadataURL := url\<rparr>)\<rparr>)"

definition setAccountDataEncryptionKey :: "address \<Rightarrow> bytes \<Rightarrow> storage \<Rightarrow> error + storage" where
  "setAccountDataEncryptionKey msg_sender key st =
     (if \<not> 33 \<le> length key then Inl DataEncryptionKeyTooShort
      else Inr (st\<lparr>accounts := (accounts st)
                  (msg_sender := (accounts st msg_sender)\<lparr>dataEncryptionKey := key\<rparr>)\<rparr>))"

definition setWalletAddress :: "address \<Rightarrow> address \<Rightarrow> storage \<Rightarrow> error + storage" where
  "setWalletAddress msg_sender wallet st =
     Inr (st\<lparr>accounts := (accounts st)
            (msg_sender := (accounts st msg_sender)\<lparr>walletAddress := wallet\<rparr>)\<rparr>)"

definition setAccount :: "address \<Rightarrow> bytes \<Rightarrow> address \<Rightarrow> storage \<Rightarrow> error + storage" where
  "setAccount msg_sender key wallet st =
     (case setAccountDataEncryptionKey msg_sender key st of
        Inl e \<Rightarrow> Inl e
      | Inr st' \<Rightarrow> setWalletAddress msg_sender wallet st')"

definition getMetadataURL :: "storage \<Rightarrow> address \<Rightarrow> string" where
  "getMetadataURL st account = metadataURL (accounts st account)"

definition getDataEncryptionKey :: "storage \<Rightarrow> address \<Rightarrow> bytes" where
  "getDataEncryptionKey st account = dataEncryptionKey (accounts st account)"

definition getWalletAddress :: "storage \<Rightarrow> address \<Rightarrow> address" where
  "getWalletAddress st account = walletAddress (accounts st account)"

subsection \<open>Authorization\<close>

text \<open>The private function \<open>authorize\<close>: three checks, the signature, two index writes.\<close>

definition authorize ::
  "recover \<Rightarrow> address \<Rightarrow> address \<Rightarrow> address \<Rightarrow> uint8 \<Rightarrow> bytes32 \<Rightarrow> bytes32 \<Rightarrow>
   storage \<Rightarrow> error + storage" where
  "authorize getSignerOfAddress msg_sender current previous v r s st =
     (if \<not> isAccount st msg_sender then Inl UnknownIdentity
      else if \<not> isNotAccount st current then Inl CandidateIsIdentity
      else if \<not> isNotAuthorized st current then Inl CandidateAlreadyClaimed
      else if getSignerOfAddress msg_sender v r s \<noteq> current then Inl InvalidSignature
      else Inr (st\<lparr>authorizedBy := ((authorizedBy st)(previous := 0))(current := msg_sender)\<rparr>))"

text \<open>
  Modelled from the spec: the modifier \<open>nonReentrant\<close> of the imported \<open>ReentrancyGuard\<close>,
  around a function body. It refuses to start while the guard is held, holds the guard
  while the body runs and gives it back on return; a body that reverts reverts the call.
\<close>

definition nonReentrant :: "(storage \<Rightarrow> error + storage) \<Rightarrow> storage \<Rightarrow> error + storage" where
  "nonReentrant body st =
     (if guardHeld st then Inl ReentrantCall
      else (case body (st\<lparr>guardHeld := True\<rparr>) of
              Inl e \<Rightarrow> Inl e
            | Inr st' \<Rightarrow> Inr (st'\<lparr>guardHeld := False\<rparr>)))"

definition authorizeVoteSigner ::
  "recover \<Rightarrow> address \<Rightarrow> address \<Rightarrow> uint8 \<Rightarrow> bytes32 \<Rightarrow> bytes32 \<Rightarrow> storage \<Rightarrow> error + storage" where
  "authorizeVoteSigner getSignerOfAddress msg_sender voter v r s =
     nonReentrant (\<lambda>st.
       case authorize getSignerOfAddress msg_sender voter
              (voting (signers (accounts st msg_sender))) v r s st of
         Inl e \<Rightarrow> Inl e
       | Inr st' \<Rightarrow> Inr (st'\<lparr>accounts := (accounts st')
            (msg_sender := (accounts st' msg_sender)
               \<lparr>signers := (signers (accounts st' msg_sender))\<lparr>voting := voter\<rparr>\<rparr>)\<rparr>))"

definition authorizeValidationSigner ::
  "recover \<Rightarrow> address \<Rightarrow> address \<Rightarrow> uint8 \<Rightarrow> bytes32 \<Rightarrow> bytes32 \<Rightarrow> storage \<Rightarrow> error + storage" where
  "authorizeValidationSigner getSignerOfAddress msg_sender validator v r s =
     nonReentrant (\<lambda>st.
       case authorize getSignerOfAddress msg_sender validator
              (validating (signers (accounts st msg_sender))) v r s st of
         Inl e \<Rightarrow> Inl e
       | Inr st' \<Rightarrow> Inr (st'\<lparr>accounts := (accounts st')
            (msg_sender := (accounts st' msg_sender)
               \<lparr>signers := (signers (accounts st' msg_sender))\<lparr>validating := validator\<rparr>\<rparr>)\<rparr>))"

text \<open>\<open>authorizeAttestationSigner\<close> is declared \<open>public\<close>, with no modifier.\<close>

definition authorizeAttestationSigner ::
  "recover \<Rightarrow> address \<Rightarrow> address \<Rightarrow> uint8 \<Rightarrow> bytes32 \<Rightarrow> bytes32 \<Rightarrow> storage \<Rightarrow> error + storage" where
  "authorizeAttestationSigner getSignerOfAddress msg_sender attestor v r s st =
     (case authorize getSignerOfAddress msg_sender attestor
             (attesting (signers (accounts st msg_sender))) v r s st of
        Inl e \<Rightarrow> Inl e
      | Inr st' \<Rightarrow> Inr (st'\<lparr>accounts := (accounts st')
           (msg_sender := (accounts st' msg_sender)
              \<lparr>signers := (signers (accounts st' msg_sender))\<lparr>attesting := attestor\<rparr>\<rparr>)\<rparr>))"

subsection \<open>Resolvers\<close>

definition getAccountFromAttestationSigner :: "storage \<Rightarrow> address \<Rightarrow> error + address" where
  "getAccountFromAttestationSigner st accountOrAttestationSigner =
     (let authorizingAccount = authorizedBy st accountOrAttestationSigner in
      if authorizingAccount \<noteq> 0 then
        (if attesting (signers (accounts st authorizingAccount)) \<noteq> accountOrAttestationSigner
         then Inl StaleAuthorization else Inr authorizingAccount)
      else
        (if \<not> isAccount st accountOrAttestationSigner
         then Inl UnknownIdentity else Inr accountOrAttestationSigner))"

definition getAccountFromVoteSigner :: "storage \<Rightarrow> address \<Rightarrow> error + address" where
  "getAccountFromVoteSigner st accountOrVoteSigner =
     (let authorizingAccount = authorizedBy st accountOrVoteSigner in
      if authorizingAccount \<noteq> 0 then
        (if voting (signers (accounts st authorizingAccount)) \<noteq> accountOrVoteSigner
         then Inl StaleAuthorization else Inr authorizingAccount)
      else
        (if \<not> isAccount st accountOrVoteSigner
         then Inl UnknownIdentity else Inr accountOrVoteSigner))"

definition getAccountFromValidationSigner :: "storage \<Rightarrow> address \<Rightarrow> error + address" where
  "getAccountFromValidationSigner st accountOrValidationSigner =
     (let authorizingAccount = authorizedBy st accountOrValidationSigner in
      if authorizingAccount \<noteq> 0 then
        (if validating (signers (accounts st authorizingAccount)) \<noteq> accountOrValidationSigner
         then Inl StaleAuthorization else Inr authorizingAccount)
      else
        (if \<not> isAccount st accountOrValidationSigner
         then Inl UnknownIdentity else Inr accountOrValidationSigner))"

definition getVoteSignerFromAccount :: "storage \<Rightarrow> address \<Rightarrow> error + address" where
  "getVoteSignerFromAccount st account =
     (if \<not> isAccount st account then Inl UnknownIdentity
      else (let voter = voting (signers (accounts st account)) in
            Inr (if voter = 0 then account else voter)))"

definition getValidationSignerFromAccount :: "storage \<Rightarrow> address \<Rightarrow> error + address" where
  "getValidationSignerFromAccount st account =
     (if \<not> isAccount st account then Inl UnknownIdentity
      else (let validator = validating (signers (accounts st account)) in
            Inr (if validator = 0 then account else validator)))"

definition getAttestationSignerFromAccount :: "storage \<Rightarrow> address \<Rightarrow> error + address" where
  "getAttestationSignerFromAccount st account =
     (if \<not> isAccount st account then Inl UnknownIdentity
      else (let attestor = attesting (signers (accounts st account)) in
            Inr (if attestor = 0 then account else attestor)))"

subsection \<open>The three roles at once\<close>

text \<open>
  The contract has one function per role. To state a property of every role, \<open>Role\<close>
  names the three and the functions below dispatch to the contract's own.
\<close>

datatype Role = Voting | Validating | Attesting

fun slot :: "Role \<Rightarrow> Account \<Rightarrow> address" where
  "slot Voting a = voting (signers a)"
| "slot Validating a = validating (signers a)"
| "slot Attesting a = attesting (signers a)"

fun authorizeSigner ::
  "Role \<Rightarrow> recover \<Rightarrow> address \<Rightarrow> address \<Rightarrow> uint8 \<Rightarrow> bytes32 \<Rightarrow> bytes32 \<Rightarrow>
   storage \<Rightarrow> error + storage" where
  "authorizeSigner Voting = authorizeVoteSigner"
| "authorizeSigner Validating = authorizeValidationSigner"
| "authorizeSigner Attesting = authorizeAttestationSigner"

fun getAccountFromSigner :: "Role \<Rightarrow> storage \<Rightarrow> address \<Rightarrow> error + address" where
  "getAccountFromSigner Voting = getAccountFromVoteSigner"
| "getAccountFromSigner Validating = getAccountFromValidationSigner"
| "getAccountFromSigner Attesting = getAccountFromAttestationSigner"

fun getSignerFromAccount :: "Role \<Rightarrow> storage \<Rightarrow> address \<Rightarrow> error + address" where
  "getSignerFromAccount Voting = getVoteSignerFromAccount"
| "getSignerFromAccount Validating = getValidationSignerFromAccount"
| "getSignerFromAccount Attesting = getAttestationSignerFromAccount"

subsection \<open>Transactions and reachable storage\<close>

text \<open>
  A transaction is one external call by \<open>msg.sender\<close>. When the call reverts the storage
  stays as it was. The sender of a transaction is an externally owned account or a
  contract, never \<open>address(0)\<close>.
\<close>

datatype call =
    CreateAccount
  | SetAccount bytes address
  | AuthorizeVoteSigner address uint8 bytes32 bytes32
  | AuthorizeValidationSigner address uint8 bytes32 bytes32
  | AuthorizeAttestationSigner address uint8 bytes32 bytes32
  | SetMetadataURL string
  | SetAccountDataEncryptionKey bytes
  | SetWalletAddress address

fun perform :: "recover \<Rightarrow> address \<Rightarrow> call \<Rightarrow> storage \<Rightarrow> error + storage" where
  "perform rc sender CreateAccount = createAccount sender"
| "perform rc sender (SetAccount key wallet) = setAccount sender key wallet"
| "perform rc sender (AuthorizeVoteSigner a v r s) = authorizeVoteSigner rc sender a v r s"
| "perform rc sender (AuthorizeValidationSigner a v r s) =
     authorizeValidationSigner rc sender a v r s"
| "perform rc sender (AuthorizeAttestationSigner a v r s) =
     authorizeAttestationSigner rc sender a v r s"
| "perform rc sender (SetMetadataURL url) = setMetadataURL sender url"
| "perform rc sender (SetAccountDataEncryptionKey key) = setAccountDataEncryptionKey sender key"
| "perform rc sender (SetWalletAddress wallet) = setWalletAddress sender wallet"

text \<open>
  The entry point that \<open>authorizeSigner\<close> dispatches to, as the call of a transaction.
\<close>

fun authorizeCall :: "Role \<Rightarrow> address \<Rightarrow> uint8 \<Rightarrow> bytes32 \<Rightarrow> bytes32 \<Rightarrow> call" where
  "authorizeCall Voting = AuthorizeVoteSigner"
| "authorizeCall Validating = AuthorizeValidationSigner"
| "authorizeCall Attesting = AuthorizeAttestationSigner"

definition transact :: "recover \<Rightarrow> address \<Rightarrow> call \<Rightarrow> storage \<Rightarrow> storage" where
  "transact rc sender c st = (case perform rc sender c st of Inl e \<Rightarrow> st | Inr st' \<Rightarrow> st')"

inductive reachable :: "recover \<Rightarrow> storage \<Rightarrow> bool" for rc :: recover where
  start: "reachable rc initial"
| step: "reachable rc st \<Longrightarrow> sender \<noteq> 0 \<Longrightarrow> reachable rc (transact rc sender c st)"

subsection \<open>A test double and example storage\<close>

text \<open>
  Modelled from the spec: the signature library is not part of the sources, and section 9
  of the specification lets a test double stand for it. This one is used to run the
  contract on concrete input only: the signature \<open>(v, r, s)\<close> names the signed address
  in \<open>r\<close> and the signing key in \<open>s\<close>, and any other signature recovers to \<open>address(0)\<close>.
\<close>

definition testSigner :: recover where
  "testSigner message v r s = (if r = ucast message then ucast s else 0)"

text \<open>
  Storage to run the contract on: account \<open>1\<close> registered; then \<open>2\<close> authorized as its
  vote signer; then a second account \<open>3\<close>; and \<open>heldAccount\<close>, the first of these seen from
  inside a guarded entry point, while the guard is held.
\<close>

definition oneAccount :: storage where
  "oneAccount = transact testSigner 1 CreateAccount initial"

definition oneSigner :: storage where
  "oneSigner = transact testSigner 1 (AuthorizeVoteSigner 2 0 1 2) oneAccount"

definition twoAccounts :: storage where
  "twoAccounts = transact testSigner 3 CreateAccount oneSigner"

definition heldAccount :: storage where
  "heldAccount = oneAccount\<lparr>guardHeld := True\<rparr>"

subsection \<open>The invariant of the two mappings\<close>

text \<open>
  \<open>wellFormed ex sl ab\<close> relates the three views of the storage that the checks read:
  \<open>ex\<close> (which addresses are accounts), \<open>sl\<close> (the three signer slots of each address)
  and \<open>ab\<close> (the mapping \<open>authorizedBy\<close>). In order: \<open>address(0)\<close> is no account; an
  account is not an authorized signer; only accounts have signers; an authorized signer
  sits in a slot of the account that authorized it; a signer in a slot is authorized by
  the owner of the slot; a signer sits in one slot only.
\<close>

definition wellFormed ::
  "(address \<Rightarrow> bool) \<Rightarrow> (address \<Rightarrow> Role \<Rightarrow> address) \<Rightarrow> (address \<Rightarrow> address) \<Rightarrow> bool" where
  "wellFormed ex sl ab \<longleftrightarrow>
     \<not> ex 0
   \<and> (\<forall>a. ex a \<longrightarrow> ab a = 0)
   \<and> (\<forall>a R. \<not> ex a \<longrightarrow> sl a R = 0)
   \<and> (\<forall>x. ab x \<noteq> 0 \<longrightarrow> ex (ab x) \<and> (\<exists>R. sl (ab x) R = x))
   \<and> (\<forall>a R. sl a R \<noteq> 0 \<longrightarrow> ab (sl a R) = a)
   \<and> (\<forall>a R R'. sl a R \<noteq> 0 \<longrightarrow> sl a R = sl a R' \<longrightarrow> R = R')"

definition consistent :: "storage \<Rightarrow> bool" where
  "consistent st \<longleftrightarrow> \<not> guardHeld st
     \<and> wellFormed (isAccount st) (\<lambda>a R. slot R (accounts st a)) (authorizedBy st)"

section \<open>Properties\<close>

subsection \<open>What a successful authorization does\<close>

lemma authorizeSigner_Inr:
  assumes "authorizeSigner R rc I C v r s st = Inr st'"
  shows "isAccount st I" and "\<not> exists (accounts st C)" and "authorizedBy st C = 0"
    and "rc I v r s = C" and "R \<noteq> Attesting \<Longrightarrow> \<not> guardHeld st"
    and "guardHeld st' = guardHeld st"
    and "authorizedBy st' = ((authorizedBy st)(slot R (accounts st I) := 0))(C := I)"
    and "slot R' (accounts st' a) = (if a = I \<and> R' = R then C else slot R' (accounts st a))"
    and "exists (accounts st' a) = exists (accounts st a)"
    and "walletAddress (accounts st' a) = walletAddress (accounts st a)"
    and "dataEncryptionKey (accounts st' a) = dataEncryptionKey (accounts st a)"
    and "metadataURL (accounts st' a) = metadataURL (accounts st a)"
  using assms
  by (cases R; cases R';
      auto simp: authorizeVoteSigner_def authorizeValidationSigner_def
        authorizeAttestationSigner_def nonReentrant_def authorize_def
        isAccount_def isNotAccount_def isNotAuthorized_def
      split: if_splits sum.splits)+

subsection \<open>The invariant holds in every reachable storage\<close>

lemma wellFormed_empty: "wellFormed (\<lambda>_. False) (\<lambda>_ _. 0) (\<lambda>_. 0)"
  by (simp add: wellFormed_def)

lemma wellFormed_create:
  assumes "wellFormed ex sl ab" "S \<noteq> 0" "\<not> ex S" "ab S = 0"
  shows "wellFormed (ex(S := True)) sl ab"
  using assms unfolding wellFormed_def by auto

lemma wellFormed_authorize:
  assumes wf: "wellFormed ex sl ab" and I: "ex I" and C: "\<not> ex C" and free: "ab C = 0"
  shows "wellFormed ex (sl(I := (sl I)(R := C))) ((ab(sl I R := 0))(C := I))"
proof -
  let ?sl = "sl(I := (sl I)(R := C))" and ?ab = "(ab(sl I R := 0))(C := I)"
  from wf have n0: "\<not> ex 0" and dj: "\<And>a. ex a \<Longrightarrow> ab a = 0"
    and un: "\<And>a R. \<not> ex a \<Longrightarrow> sl a R = 0"
    and ix: "\<And>x. ab x \<noteq> 0 \<Longrightarrow> ex (ab x) \<and> (\<exists>R. sl (ab x) R = x)"
    and sb: "\<And>a R. sl a R \<noteq> 0 \<Longrightarrow> ab (sl a R) = a"
    and uq: "\<And>a R R'. sl a R \<noteq> 0 \<Longrightarrow> sl a R = sl a R' \<Longrightarrow> R = R'"
    unfolding wellFormed_def by blast+
  from I n0 have I0: "I \<noteq> 0" by auto
  have 1: "\<forall>a. ex a \<longrightarrow> ?ab a = 0"
    using dj C by auto
  have 2: "\<forall>a R'. \<not> ex a \<longrightarrow> ?sl a R' = 0"
    using un I by auto
  have 3: "\<forall>x. ?ab x \<noteq> 0 \<longrightarrow> ex (?ab x) \<and> (\<exists>R'. ?sl (?ab x) R' = x)"
  proof (intro allI impI)
    fix x assume x: "?ab x \<noteq> 0"
    show "ex (?ab x) \<and> (\<exists>R'. ?sl (?ab x) R' = x)"
    proof (cases "x = C")
      case True
      then show ?thesis using I by auto
    next
      case False
      with x have xP: "x \<noteq> sl I R" and ab: "?ab x = ab x" "ab x \<noteq> 0"
        by (auto split: if_splits)
      from ix [OF ab(2)] obtain R' where e: "ex (ab x)" and s: "sl (ab x) R' = x" by blast
      from s xP have "?sl (ab x) R' = x" by auto
      with e have "ex (ab x) \<and> (\<exists>R'. ?sl (ab x) R' = x)" by blast
      then show ?thesis unfolding ab(1) .
    qed
  qed
  have 4: "\<forall>a R'. ?sl a R' \<noteq> 0 \<longrightarrow> ?ab (?sl a R') = a"
  proof (intro allI impI)
    fix a R' assume nz: "?sl a R' \<noteq> 0"
    show "?ab (?sl a R') = a"
    proof (cases "a = I \<and> R' = R")
      case True
      then show ?thesis by simp
    next
      case False
      then have eq: "?sl a R' = sl a R'" by auto
      with nz have nz': "sl a R' \<noteq> 0" by simp
      from sb [OF nz'] have ab: "ab (sl a R') = a" .
      from nz' un have "ex a" by blast
      with n0 have a0: "a \<noteq> 0" by auto
      from ab a0 free have nC: "sl a R' \<noteq> C" by auto
      have nP: "sl a R' \<noteq> sl I R"
      proof
        assume e: "sl a R' = sl I R"
        with nz' have "sl I R \<noteq> 0" by simp
        from sb [OF this] e ab have aI: "a = I" by simp
        with e nz' uq [of I R' R] have "R' = R" by simp
        with aI False show False by simp
      qed
      from nC nP ab eq show ?thesis by simp
    qed
  qed
  have 5: "\<forall>a R1 R2. ?sl a R1 \<noteq> 0 \<longrightarrow> ?sl a R1 = ?sl a R2 \<longrightarrow> R1 = R2"
  proof (intro allI impI)
    fix a R1 R2 assume nz: "?sl a R1 \<noteq> 0" and e: "?sl a R1 = ?sl a R2"
    have fresh: "sl I R' \<noteq> C \<or> sl I R' = 0" for R'
      using sb [of I R'] free I0 by metis
    show "R1 = R2"
    proof (cases "a = I")
      case False
      with nz e uq [of a R1 R2] show ?thesis by simp
    next
      case True
      with nz e uq [of I R1 R2] fresh [of R1] fresh [of R2] show ?thesis
        by (auto split: if_splits)
    qed
  qed
  from n0 1 2 3 4 5 show ?thesis unfolding wellFormed_def by blast
qed

lemma slot_profile [simp]:
  "slot R (a\<lparr>exists := e\<rparr>) = slot R a"
  "slot R (a\<lparr>walletAddress := w\<rparr>) = slot R a"
  "slot R (a\<lparr>dataEncryptionKey := k\<rparr>) = slot R a"
  "slot R (a\<lparr>metadataURL := u\<rparr>) = slot R a"
  by (cases R; simp)+

lemma consistent_initial: "consistent initial"
proof -
  have "slot R emptyAccount = 0" for R
    by (cases R) (simp_all add: emptyAccount_def emptySigners_def)
  then show ?thesis
    using wellFormed_empty
    by (simp add: consistent_def initial_def isAccount_def [abs_def] emptyAccount_def)
qed

lemma consistent_same:
  assumes "consistent st" "guardHeld st' = guardHeld st" "authorizedBy st' = authorizedBy st"
    and "\<And>a. exists (accounts st' a) = exists (accounts st a)"
    and "\<And>a R. slot R (accounts st' a) = slot R (accounts st a)"
  shows "consistent st'"
  using assms by (simp add: consistent_def isAccount_def [abs_def])

lemma consistent_setMetadataURL:
  "consistent st \<Longrightarrow> setMetadataURL sender u st = Inr st' \<Longrightarrow> consistent st'"
  by (erule consistent_same) (auto simp: setMetadataURL_def split: if_splits)

lemma consistent_setWalletAddress:
  "consistent st \<Longrightarrow> setWalletAddress sender w st = Inr st' \<Longrightarrow> consistent st'"
  by (erule consistent_same) (auto simp: setWalletAddress_def split: if_splits)

lemma consistent_setAccountDataEncryptionKey:
  "consistent st \<Longrightarrow> setAccountDataEncryptionKey sender k st = Inr st' \<Longrightarrow> consistent st'"
  by (erule consistent_same) (auto simp: setAccountDataEncryptionKey_def split: if_splits)

lemma consistent_setAccount:
  "consistent st \<Longrightarrow> setAccount sender k w st = Inr st' \<Longrightarrow> consistent st'"
  unfolding setAccount_def
  by (auto split: sum.splits
      dest: consistent_setAccountDataEncryptionKey consistent_setWalletAddress)

lemma consistent_createAccount:
  assumes c: "consistent st" and s: "sender \<noteq> 0" and r: "createAccount sender st = Inr st'"
  shows "consistent st'"
proof -
  from r have pre: "\<not> isAccount st sender" "authorizedBy st sender = 0"
    and st': "st' = st\<lparr>accounts := (accounts st)
                  (sender := (accounts st sender)\<lparr>exists := True\<rparr>)\<rparr>"
    by (auto simp: createAccount_def isAccount_def isNotAccount_def isNotAuthorized_def
        split: if_splits)
  have ex: "isAccount st' = (isAccount st)(sender := True)"
    by (rule ext) (simp add: st' isAccount_def)
  have sl: "(\<lambda>a R. slot R (accounts st' a)) = (\<lambda>a R. slot R (accounts st a))"
    by (intro ext) (simp add: st')
  have "wellFormed ((isAccount st)(sender := True)) (\<lambda>a R. slot R (accounts st a)) (authorizedBy st)"
    using c s pre by (intro wellFormed_create) (simp_all add: consistent_def)
  with c show ?thesis
    unfolding consistent_def ex sl by (simp add: st')
qed

lemma consistent_authorizeSigner:
  assumes c: "consistent st" and r: "authorizeSigner R rc sender C v r s st = Inr st'"
  shows "consistent st'"
proof -
  note f = authorizeSigner_Inr [OF r]
  have ex: "isAccount st' = isAccount st"
    by (rule ext) (simp add: isAccount_def f(9))
  have sl: "(\<lambda>a R'. slot R' (accounts st' a)) =
      (\<lambda>a R'. slot R' (accounts st a))(sender := (\<lambda>R'. slot R' (accounts st sender))(R := C))"
    by (intro ext) (simp add: f(8))
  have "wellFormed (isAccount st) ((\<lambda>a R'. slot R' (accounts st a))
          (sender := (\<lambda>R'. slot R' (accounts st sender))(R := C)))
          ((authorizedBy st)(slot R (accounts st sender) := 0, C := sender))"
    using c f(1,2,3) by (intro wellFormed_authorize) (simp_all add: consistent_def isAccount_def)
  with c f(6) show ?thesis
    unfolding consistent_def ex sl f(7) by simp
qed

lemma consistent_perform:
  assumes "consistent st" "sender \<noteq> 0" "perform rc sender c st = Inr st'"
  shows "consistent st'"
proof (cases c)
  case (AuthorizeVoteSigner a v r s)
  with assms consistent_authorizeSigner [of st Voting rc sender a v r s st'] show ?thesis by simp
next
  case (AuthorizeValidationSigner a v r s)
  with assms consistent_authorizeSigner [of st Validating rc sender a v r s st'] show ?thesis by simp
next
  case (AuthorizeAttestationSigner a v r s)
  with assms consistent_authorizeSigner [of st Attesting rc sender a v r s st'] show ?thesis by simp
qed (use assms in \<open>auto dest: consistent_createAccount consistent_setAccount
      consistent_setMetadataURL consistent_setWalletAddress consistent_setAccountDataEncryptionKey\<close>)

lemma consistent_transact:
  "consistent st \<Longrightarrow> sender \<noteq> 0 \<Longrightarrow> consistent (transact rc sender c st)"
  unfolding transact_def by (auto split: sum.splits dest: consistent_perform)

lemma reachable_consistent: "reachable rc st \<Longrightarrow> consistent st"
  by (induction rule: reachable.induct) (simp_all add: consistent_initial consistent_transact)

lemma reachable_facts:
  assumes "reachable rc st"
  shows "\<not> guardHeld st" and "\<not> isAccount st 0"
    and "isAccount st a \<Longrightarrow> authorizedBy st a = 0"
    and "\<not> isAccount st a \<Longrightarrow> slot R (accounts st a) = 0"
    and "authorizedBy st x \<noteq> 0 \<Longrightarrow> isAccount st (authorizedBy st x)"
    and "authorizedBy st x \<noteq> 0 \<Longrightarrow> \<exists>R. slot R (accounts st (authorizedBy st x)) = x"
    and "slot R (accounts st a) \<noteq> 0 \<Longrightarrow> authorizedBy st (slot R (accounts st a)) = a"
    and "slot R (accounts st a) \<noteq> 0 \<Longrightarrow>
           slot R (accounts st a) = slot R' (accounts st a) \<Longrightarrow> R = R'"
  using reachable_consistent [OF assms] unfolding consistent_def wellFormed_def by blast+

subsection \<open>Running the contract on the example storage\<close>

lemmas run_defs =
  transact_def createAccount_def authorizeVoteSigner_def authorizeValidationSigner_def
  authorizeAttestationSigner_def nonReentrant_def authorize_def isAccount_def isNotAccount_def
  isAuthorized_def isNotAuthorized_def initial_def emptyAccount_def emptySigners_def
  testSigner_def getAccountFromVoteSigner_def getAccountFromValidationSigner_def
  getAccountFromAttestationSigner_def getVoteSignerFromAccount_def
  getValidationSignerFromAccount_def getAttestationSignerFromAccount_def
  oneAccount_def oneSigner_def twoAccounts_def heldAccount_def Let_def

lemma reachable_oneAccount: "reachable testSigner oneAccount"
  unfolding oneAccount_def by (intro reachable.intros) simp

lemma reachable_oneSigner: "reachable testSigner oneSigner"
  unfolding oneSigner_def by (intro reachable.step reachable_oneAccount) simp

lemma reachable_twoAccounts: "reachable testSigner twoAccounts"
  unfolding twoAccounts_def by (intro reachable.step reachable_oneSigner) simp

subsection \<open>The checks of \<open>authorize\<close>, for every role\<close>

lemma perform_authorizeCall:
  "perform rc sender (authorizeCall R C v r s) = authorizeSigner R rc sender C v r s"
  by (cases R) simp_all

lemma authorizeSigner_claimed:
  assumes "\<not> guardHeld st" "isAccount st I" "\<not> isAccount st C" "authorizedBy st C \<noteq> 0"
  shows "authorizeSigner R rc I C v r s st = Inl CandidateAlreadyClaimed"
  using assms
  by (cases R)
     (simp_all add: authorizeVoteSigner_def authorizeValidationSigner_def
        authorizeAttestationSigner_def nonReentrant_def authorize_def isAccount_def
        isNotAccount_def isNotAuthorized_def)

lemma authorizeSigner_free:
  assumes "\<not> guardHeld st" "isAccount st I" "\<not> isAccount st C" "authorizedBy st C = 0"
    and "rc I v r s = C"
  shows "\<exists>st'. authorizeSigner R rc I C v r s st = Inr st'"
  using assms
  by (cases R)
     (simp_all add: authorizeVoteSigner_def authorizeValidationSigner_def
        authorizeAttestationSigner_def nonReentrant_def authorize_def isAccount_def
        isNotAccount_def isNotAuthorized_def)

lemma getAccountFromSigner_eq:
  "getAccountFromSigner R st x =
     (if authorizedBy st x \<noteq> 0 then
        (if slot R (accounts st (authorizedBy st x)) \<noteq> x then Inl StaleAuthorization
         else Inr (authorizedBy st x))
      else (if \<not> isAccount st x then Inl UnknownIdentity else Inr x))"
  by (cases R)
     (simp_all add: getAccountFromVoteSigner_def getAccountFromValidationSigner_def
        getAccountFromAttestationSigner_def Let_def)



section \<open>The claims\<close>

subsection \<open>C1: accounts and authorized signers are disjoint\<close>

text \<open>
  Claim C1. In every storage reached from the empty registry by any sequence of
  transactions (account creation, the three authorizations, the profile setters, whether
  they succeed or revert), no address is both an account and an authorized signer: the
  set of addresses with \<open>exists = true\<close> and the set of addresses that \<open>authorizedBy\<close>
  maps to a non-zero account have an empty intersection.
\<close>

theorem accounts_and_signers_disjoint:
  "reachable rc st \<Longrightarrow> {a. isAccount st a} \<inter> {a. isAuthorized st a} = {}"
  by (auto simp: isAuthorized_def dest: reachable_facts(3))

theorem accounts_and_signers_disjoint_witness:
  "reachable testSigner oneSigner \<and> isAccount oneSigner 1 \<and> isAuthorized oneSigner 2
   \<and> {a. isAccount oneSigner a} \<inter> {a. isAuthorized oneSigner a} = {}"
proof -
  have "isAccount oneSigner 1" "isAuthorized oneSigner 2"
    by (simp_all add: run_defs)
  with reachable_oneSigner accounts_and_signers_disjoint [OF reachable_oneSigner]
  show ?thesis by simp
qed

subsection \<open>C2: when the resolvers report a stale authorization\<close>

text \<open>
  Claim C2 says that in a reachable storage no signer-to-account resolver fails its
  re-verification \<open>require\<close>, for any role and any address. The index \<open>authorizedBy\<close> is
  shared by the three roles while each resolver compares with the slot of its own role:
  after account \<open>1\<close> authorizes \<open>2\<close> as its vote signer, the vote resolver maps \<open>2\<close> to \<open>1\<close>
  and the validation resolver fails the re-verification on \<open>2\<close>.
\<close>

theorem resolver_stale_for_other_role:
  "reachable testSigner oneSigner
   \<and> getAccountFromVoteSigner oneSigner 2 = Inr 1
   \<and> getAccountFromValidationSigner oneSigner 2 = Inl StaleAuthorization"
  using reachable_oneSigner by (simp add: run_defs)

text \<open>
  Claim C2, amended. In every reachable storage the resolver of the role under which an
  address is held never fails the re-verification: when the slot of role \<open>R\<close> of account
  \<open>I\<close> holds the signer \<open>x\<close>, the signer-to-account resolver of role \<open>R\<close> maps \<open>x\<close> to \<open>I\<close>.
  The re-verification fails only on an authorized signer that the account which
  authorized it holds in the slot of another role.
\<close>

theorem resolver_stale_only_for_other_role:
  assumes "reachable rc st"
  shows "(slot R (accounts st I) = x \<and> x \<noteq> 0 \<longrightarrow> getAccountFromSigner R st x = Inr I)
    \<and> (getAccountFromSigner R st x = Inl StaleAuthorization \<longrightarrow>
          isAuthorized st x
          \<and> (\<exists>R'. R' \<noteq> R \<and> slot R' (accounts st (authorizedBy st x)) = x))"
proof (intro conjI impI)
  assume h: "slot R (accounts st I) = x \<and> x \<noteq> 0"
  then have nz: "slot R (accounts st I) \<noteq> 0" by simp
  from reachable_facts(4) [OF assms, of I R] nz have "isAccount st I" by auto
  with reachable_facts(2) [OF assms] have I0: "I \<noteq> 0" by auto
  from reachable_facts(7) [OF assms nz] h have "authorizedBy st x = I" by simp
  with I0 h show "getAccountFromSigner R st x = Inr I"
    by (simp add: getAccountFromSigner_eq)
next
  assume s: "getAccountFromSigner R st x = Inl StaleAuthorization"
  then have c: "authorizedBy st x \<noteq> 0"
    and n: "slot R (accounts st (authorizedBy st x)) \<noteq> x"
    by (auto simp: getAccountFromSigner_eq split: if_splits)
  from c show "isAuthorized st x" by (simp add: isAuthorized_def)
  from reachable_facts(6) [OF assms c] obtain R'
    where "slot R' (accounts st (authorizedBy st x)) = x" by blast
  with n show "\<exists>R'. R' \<noteq> R \<and> slot R' (accounts st (authorizedBy st x)) = x" by auto
qed

theorem resolver_stale_only_for_other_role_witness:
  "reachable testSigner oneSigner
   \<and> slot Voting (accounts oneSigner 1) = 2 \<and> (2::address) \<noteq> 0
   \<and> getAccountFromSigner Voting oneSigner 2 = Inr 1
   \<and> getAccountFromSigner Validating oneSigner 2 = Inl StaleAuthorization
   \<and> isAuthorized oneSigner 2
   \<and> (\<exists>R'. R' \<noteq> Validating \<and> slot R' (accounts oneSigner (authorizedBy oneSigner 2)) = 2)"
proof -
  have a: "slot Voting (accounts oneSigner 1) = 2 \<and> (2::address) \<noteq> 0"
    and b: "getAccountFromSigner Validating oneSigner 2 = Inl StaleAuthorization"
    by (simp_all add: run_defs)
  from resolver_stale_only_for_other_role [OF reachable_oneSigner, of Voting 1 2]
    resolver_stale_only_for_other_role [OF reachable_oneSigner, of Validating 1 2]
    reachable_oneSigner a b
  show ?thesis by blast
qed

subsection \<open>C3: authorization and the two resolvers\<close>




subsection \<open>C4: a claimed candidate cannot be claimed again\<close>

text \<open>
  Claim C4. In every reachable storage in which candidate \<open>C\<close> is an authorized signer
  (of any account, for any role), every attempt of an account \<open>I\<close> to authorize \<open>C\<close> for a
  role \<open>R\<close> fails on the already-authorized check, and the transaction leaves the
  storage as it was. This holds for every account and every role, so in particular for
  another account and for the same account with another role.
\<close>

theorem claimed_candidate_rejected:
  assumes "reachable rc st" and "isAuthorized st C" and "isAccount st I"
  shows "authorizeSigner R rc I C v r s st = Inl CandidateAlreadyClaimed
    \<and> transact rc I (authorizeCall R C v r s) st = st"
proof -
  from assms(2) have c: "authorizedBy st C \<noteq> 0" by (simp add: isAuthorized_def)
  with reachable_facts(3) [OF assms(1), of C] have "\<not> isAccount st C" by auto
  from authorizeSigner_claimed [OF reachable_facts(1) [OF assms(1)] assms(3) this c]
  show ?thesis by (simp add: transact_def perform_authorizeCall)
qed

theorem claimed_candidate_rejected_witness:
  "reachable testSigner twoAccounts \<and> isAuthorized twoAccounts 2 \<and> isAccount twoAccounts 3
   \<and> testSigner 3 0 3 2 = 2
   \<and> authorizeSigner Validating testSigner 3 2 0 3 2 twoAccounts = Inl CandidateAlreadyClaimed
   \<and> transact testSigner 3 (authorizeCall Validating 2 0 3 2) twoAccounts = twoAccounts"
proof -
  have a: "isAuthorized twoAccounts 2" and b: "isAccount twoAccounts 3"
    and c: "testSigner 3 0 3 2 = 2"
    by (simp_all add: run_defs)
  from claimed_candidate_rejected [OF reachable_twoAccounts a b, of Validating 0 3 2]
    reachable_twoAccounts a b c
  show ?thesis by blast
qed

subsection \<open>C5: replacing a signer releases the previous one\<close>

text \<open>
  Claim C5. In every reachable storage where the slot of role \<open>R\<close> of account \<open>I\<close> holds
  signer \<open>C1\<close>: a successful authorization of a new candidate \<open>C2\<close> for the same role of
  \<open>I\<close> removes \<open>C1\<close> from \<open>authorizedBy\<close> in the same call, so that in the resulting storage
  \<open>createAccount\<close> by \<open>C1\<close> succeeds, and so does the authorization of \<open>C1\<close>, for any role,
  by any account that presents a signature of \<open>C1\<close>.
\<close>

theorem replaced_signer_released:
  assumes "reachable rc st" and "slot R (accounts st I) = C1" and "C1 \<noteq> 0"
    and "authorizeSigner R rc I C2 v r s st = Inr st'"
  shows "\<not> isAuthorized st' C1
    \<and> (\<exists>st''. createAccount C1 st' = Inr st'')
    \<and> (\<forall>other R' v' r' s'. isAccount st' other \<and> rc other v' r' s' = C1 \<longrightarrow>
          (\<exists>st''. authorizeSigner R' rc other C1 v' r' s' st' = Inr st''))"
proof -
  note f = authorizeSigner_Inr [OF assms(4)]
  from assms(2,3) have nz: "slot R (accounts st I) \<noteq> 0" by simp
  from reachable_facts(4) [OF assms(1), of I R] nz have "isAccount st I" by auto
  with reachable_facts(2) [OF assms(1)] have "I \<noteq> 0" by auto
  with reachable_facts(7) [OF assms(1) nz] assms(2) have c: "authorizedBy st C1 \<noteq> 0" by simp
  with reachable_facts(3) [OF assms(1), of C1] have "\<not> isAccount st C1" by auto
  then have na: "\<not> isAccount st' C1" by (simp add: isAccount_def f(9))
  from c f(3) have "C1 \<noteq> C2" by auto
  with assms(2) have free: "authorizedBy st' C1 = 0" by (simp add: f(7))
  from reachable_facts(1) [OF assms(1)] f(6) have g: "\<not> guardHeld st'" by simp
  from na free have "\<exists>st''. createAccount C1 st' = Inr st''"
    by (simp add: createAccount_def isAccount_def isNotAccount_def isNotAuthorized_def)
  moreover have "\<exists>st''. authorizeSigner R' rc other C1 v' r' s' st' = Inr st''"
    if "isAccount st' other" "rc other v' r' s' = C1" for other R' v' r' s'
    using authorizeSigner_free [where rc = rc, OF g that(1) na free that(2)] .
  ultimately show ?thesis using free by (auto simp: isAuthorized_def)
qed

theorem replaced_signer_released_witness:
  "reachable testSigner twoAccounts \<and> slot Voting (accounts twoAccounts 1) = 2
   \<and> (2::address) \<noteq> 0
   \<and> (\<exists>st'. authorizeSigner Voting testSigner 1 4 0 1 4 twoAccounts = Inr st'
        \<and> \<not> isAuthorized st' 2
        \<and> (\<exists>st''. createAccount 2 st' = Inr st'')
        \<and> isAccount st' 3 \<and> testSigner 3 0 3 2 = 2
        \<and> (\<exists>st''. authorizeSigner Attesting testSigner 3 2 0 3 2 st' = Inr st''))"
proof -
  have a: "slot Voting (accounts twoAccounts 1) = 2" and b: "(2::address) \<noteq> 0"
    and c: "testSigner 3 0 3 2 = 2"
    by (simp_all add: run_defs)
  obtain st' where st': "authorizeSigner Voting testSigner 1 4 0 1 4 twoAccounts = Inr st'"
    by (simp add: run_defs)
  then have d: "isAccount st' 3"
    by (auto simp: run_defs)
  from replaced_signer_released [OF reachable_twoAccounts a b st'] d c
  have "\<not> isAuthorized st' 2 \<and> (\<exists>st''. createAccount 2 st' = Inr st'')
     \<and> (\<exists>st''. authorizeSigner Attesting testSigner 3 2 0 3 2 st' = Inr st'')"
    by blast
  with reachable_twoAccounts a b c d st' show ?thesis by blast
qed

subsection \<open>C6: the reentrancy guard\<close>




subsection \<open>C7: an account is its own signer by default\<close>

text \<open>
  Claim C7. For an account \<open>I\<close> whose slot for role \<open>R\<close> is empty, the account-to-signer
  resolver of role \<open>R\<close> returns \<open>I\<close> itself; for an address \<open>A\<close> that is not an account it
  fails on the \<open>isAccount\<close> check.
\<close>

theorem signer_defaults_to_account:
  "(isAccount st I \<and> slot R (accounts st I) = 0 \<longrightarrow> getSignerFromAccount R st I = Inr I)
   \<and> (\<not> isAccount st A \<longrightarrow> getSignerFromAccount R st A = Inl UnknownIdentity)"
  by (cases R)
     (simp_all add: getVoteSignerFromAccount_def getValidationSignerFromAccount_def
        getAttestationSignerFromAccount_def)

theorem signer_defaults_to_account_witness:
  "isAccount oneAccount 1 \<and> slot Attesting (accounts oneAccount 1) = 0
   \<and> getSignerFromAccount Attesting oneAccount 1 = Inr 1
   \<and> \<not> isAccount oneAccount 5
   \<and> getSignerFromAccount Attesting oneAccount 5 = Inl UnknownIdentity"
proof -
  have a: "isAccount oneAccount 1" and b: "slot Attesting (accounts oneAccount 1) = 0"
    and c: "\<not> isAccount oneAccount 5"
    by (simp_all add: run_defs)
  from signer_defaults_to_account [of oneAccount 1 Attesting 5] a b c show ?thesis by blast
qed

subsection \<open>C8: the profile setters\<close>

text \<open>
  Claim C8 says that every profile setter succeeds on every input, with no check of its
  own. \<open>setAccountDataEncryptionKey\<close> requires a key of at least 33 bytes: a key of 32
  bytes is refused.
\<close>

theorem encryption_key_setter_rejects_short_key:
  "setAccountDataEncryptionKey 1 (replicate 32 7) initial = Inl DataEncryptionKeyTooShort"
  by (simp add: setAccountDataEncryptionKey_def)

text \<open>
  Claim C8, amended. For every caller, registered or not, \<open>setWalletAddress\<close> and
  \<open>setMetadataURL\<close> succeed on every value and store it unmodified;
  \<open>setAccountDataEncryptionKey\<close> succeeds and stores the key unmodified when the key has
  at least 33 bytes, and fails when it is shorter.
\<close>

theorem profile_setters_store_value:
  "(\<exists>st'. setWalletAddress c w st = Inr st' \<and> getWalletAddress st' c = w)
   \<and> (\<exists>st'. setMetadataURL c u st = Inr st' \<and> getMetadataURL st' c = u)
   \<and> (33 \<le> length k \<longrightarrow>
        (\<exists>st'. setAccountDataEncryptionKey c k st = Inr st' \<and> getDataEncryptionKey st' c = k))
   \<and> (length k < 33 \<longrightarrow> setAccountDataEncryptionKey c k st = Inl DataEncryptionKeyTooShort)"
  by (simp add: setWalletAddress_def setMetadataURL_def setAccountDataEncryptionKey_def
      getWalletAddress_def getMetadataURL_def getDataEncryptionKey_def)

theorem profile_setters_store_value_witness:
  "(\<exists>st'. setWalletAddress 1 9 initial = Inr st' \<and> getWalletAddress st' 1 = 9)
   \<and> (\<exists>st'. setMetadataURL 1 ''https://example.org'' initial = Inr st'
         \<and> getMetadataURL st' 1 = ''https://example.org'')
   \<and> 33 \<le> length (replicate 33 (7::8 word))
   \<and> (\<exists>st'. setAccountDataEncryptionKey 1 (replicate 33 7) initial = Inr st'
         \<and> getDataEncryptionKey st' 1 = replicate 33 7)
   \<and> length (replicate 31 (7::8 word)) < 33
   \<and> setAccountDataEncryptionKey 1 (replicate 31 7) initial = Inl DataEncryptionKeyTooShort"
proof -
  have a: "33 \<le> length (replicate 33 (7::8 word))"
    and b: "length (replicate 31 (7::8 word)) < 33"
    by simp_all
  from profile_setters_store_value [of 1 9 initial "''https://example.org''" "replicate 33 7"]
    profile_setters_store_value [of 1 9 initial "''https://example.org''" "replicate 31 7"] a b
  show ?thesis by blast
qed

subsection \<open>C9: the signer in place cannot be authorized again\<close>

text \<open>
  Claim C9. In every reachable storage where the slot of role \<open>R\<close> of account \<open>I\<close> holds
  signer \<open>C\<close>, the authorization of \<open>C\<close> for role \<open>R\<close> by \<open>I\<close> fails on the
  already-authorized check, whatever the signature, a valid one included.
\<close>

theorem incumbent_signer_not_refreshed:
  assumes "reachable rc st" and "slot R (accounts st I) = C" and "C \<noteq> 0"
  shows "authorizeSigner R rc I C v r s st = Inl CandidateAlreadyClaimed"
proof -
  from assms(2,3) have nz: "slot R (accounts st I) \<noteq> 0" by simp
  from reachable_facts(4) [OF assms(1), of I R] nz have acc: "isAccount st I" by auto
  with reachable_facts(2) [OF assms(1)] have "I \<noteq> 0" by auto
  with reachable_facts(7) [OF assms(1) nz] assms(2) have c: "authorizedBy st C \<noteq> 0" by simp
  with reachable_facts(3) [OF assms(1), of C] have "\<not> isAccount st C" by auto
  from authorizeSigner_claimed [OF reachable_facts(1) [OF assms(1)] acc this c]
  show ?thesis .
qed

theorem incumbent_signer_not_refreshed_witness:
  "reachable testSigner oneSigner \<and> slot Voting (accounts oneSigner 1) = 2 \<and> (2::address) \<noteq> 0
   \<and> testSigner 1 0 1 2 = 2
   \<and> authorizeSigner Voting testSigner 1 2 0 1 2 oneSigner = Inl CandidateAlreadyClaimed"
proof -
  have a: "slot Voting (accounts oneSigner 1) = 2" and b: "(2::address) \<noteq> 0"
    and c: "testSigner 1 0 1 2 = 2"
    by (simp_all add: run_defs)
  from incumbent_signer_not_refreshed [OF reachable_oneSigner a b, of 0 1 2]
    reachable_oneSigner a b c
  show ?thesis by blast
qed

subsection \<open>C10: what a successful authorization changes\<close>

text \<open>
  Claim C10. A successful authorization of candidate \<open>C\<close> for role \<open>R\<close> by account \<open>I\<close>,
  whose slot for \<open>R\<close> held \<open>P\<close>, changes the slot of role \<open>R\<close> of \<open>I\<close> (now \<open>C\<close>), the entry
  of \<open>P\<close> in \<open>authorizedBy\<close> (cleared) and the entry of \<open>C\<close> (now \<open>I\<close>), and nothing else:
  the two other slots of \<open>I\<close>, its \<open>exists\<close> flag and profile fields, every other account,
  every other entry of \<open>authorizedBy\<close> and the guard are as before. This is the same for
  the three entry points.
\<close>

theorem authorize_frame:
  assumes "authorizeSigner R rc I C v r s st = Inr st'"
  shows "slot R (accounts st' I) = C
    \<and> authorizedBy st' = (authorizedBy st)(slot R (accounts st I) := 0, C := I)
    \<and> (\<forall>R'. R' \<noteq> R \<longrightarrow> slot R' (accounts st' I) = slot R' (accounts st I))
    \<and> exists (accounts st' I) = exists (accounts st I)
    \<and> walletAddress (accounts st' I) = walletAddress (accounts st I)
    \<and> dataEncryptionKey (accounts st' I) = dataEncryptionKey (accounts st I)
    \<and> metadataURL (accounts st' I) = metadataURL (accounts st I)
    \<and> (\<forall>a. a \<noteq> I \<longrightarrow> accounts st' a = accounts st a)
    \<and> guardHeld st' = guardHeld st"
proof -
  note f = authorizeSigner_Inr [OF assms]
  have other: "accounts st' a = accounts st a" if "a \<noteq> I" for a
    using assms that
    by (cases R)
       (auto simp: authorizeVoteSigner_def authorizeValidationSigner_def
          authorizeAttestationSigner_def nonReentrant_def authorize_def
        split: if_splits sum.splits)
  from f(6,7,8,9,10,11,12) other show ?thesis by simp
qed

theorem authorize_frame_witness:
  "\<exists>st'. authorizeSigner Voting testSigner 1 4 0 1 4 twoAccounts = Inr st'
     \<and> slot Voting (accounts twoAccounts 1) = 2
     \<and> slot Voting (accounts st' 1) = 4
     \<and> authorizedBy st' = (authorizedBy twoAccounts)(2 := 0, 4 := 1)
     \<and> slot Validating (accounts st' 1) = slot Validating (accounts twoAccounts 1)
     \<and> slot Attesting (accounts st' 1) = slot Attesting (accounts twoAccounts 1)
     \<and> walletAddress (accounts st' 1) = walletAddress (accounts twoAccounts 1)
     \<and> accounts st' 3 = accounts twoAccounts 3
     \<and> guardHeld st' = guardHeld twoAccounts"
proof -
  obtain st' where st': "authorizeSigner Voting testSigner 1 4 0 1 4 twoAccounts = Inr st'"
    by (simp add: run_defs)
  have a: "slot Voting (accounts twoAccounts 1) = 2" and b: "(3::address) \<noteq> 1"
    by (simp_all add: run_defs)
  from authorize_frame [OF st'] a b st' show ?thesis by auto
qed

end
